theory Spec2Isabelle
  imports Main
begin

section \<open>picotx: compensable transactions\<close>

text \<open>
  The library has three modules: the context store (\<^verbatim>\<open>context.ts\<close>), the atomic
  wrappers (\<^verbatim>\<open>atomic.ts\<close>) and the orchestrator (\<^verbatim>\<open>transaction.ts\<close>).
  Every function is \<^verbatim>\<open>async\<close>; the model is the sequential run of one logical flow,
  where \<^verbatim>\<open>await m\<close> runs \<open>m\<close> until it settles. A run that never settles is \<open>None\<close>;
  of one that settles, a rejection (or a \<^verbatim>\<open>throw\<close>) is the \<open>Inl\<close> branch of the
  result and a resolution is \<open>Inr\<close>.
\<close>

subsection \<open>Errors\<close>

text \<open>
  \<^verbatim>\<open>new Error(message)\<close> and \<^verbatim>\<open>new AggregateError(errors, message)\<close>. Errors are
  compared by value.
\<close>

datatype error = Error string | AggregateError "error list" string

subsection \<open>State\<close>

text \<open>
  A \<^verbatim>\<open>TransactionContext\<close> is a heap object with the one field
  \<^verbatim>\<open>compensations: Array<() => Promise<void>>\<close>. Contexts are shared by reference (the
  body of a transaction receives the object and hands it to \<^verbatim>\<open>atomicExplicit\<close>), so
  a context is a reference \<open>ctx_ref\<close> and the field is a map from references to arrays.
  \<open>allocated\<close> counts the objects created so far: \<^verbatim>\<open>{ compensations: [] }\<close> takes
  the next reference. \<open>world\<close> is the caller's own state.

  The arrays hold closures, and a closure, when called, runs with the whole state before
  it: it may await an atomic call, which reaches the context store. A state of HOL cannot
  hold functions on itself, so a closure is a value of a type \<open>'c\<close> of the caller's choice,
  and what calling it does is given by a function \<open>call\<close> that the orchestrator takes with
  it: \<^verbatim>\<open>await rollback()\<close> is \<open>call rollback\<close>.
\<close>

type_synonym ctx_ref = nat

record ('c, 'w) state =
  transactionContextStack :: "ctx_ref list"
  compensations :: "ctx_ref \<Rightarrow> 'c list"
  allocated :: nat
  world :: 'w

type_synonym ('a, 'c, 'w) async = "('c, 'w) state \<Rightarrow> ((error + 'a) \<times> ('c, 'w) state) option"

subsection \<open>context.ts\<close>

text \<open>
  \<^verbatim>\<open>transactionContextStack[transactionContextStack.length - 1]\<close>: index \<open>-1\<close> of the
  empty array reads \<^verbatim>\<open>undefined\<close>.
\<close>

definition getCurrentTransactionContext :: "('c, 'w) state \<Rightarrow> ctx_ref option" where
  "getCurrentTransactionContext s =
     (if transactionContextStack s = [] then None
      else Some (last (transactionContextStack s)))"

definition pushTransactionContext :: "ctx_ref \<Rightarrow> ('c, 'w) state \<Rightarrow> ('c, 'w) state" where
  "pushTransactionContext ctx s =
     s\<lparr>transactionContextStack := transactionContextStack s @ [ctx]\<rparr>"

text \<open>\<^verbatim>\<open>Array.prototype.pop\<close> on the empty array returns \<^verbatim>\<open>undefined\<close> and changes nothing.\<close>

definition popTransactionContext :: "('c, 'w) state \<Rightarrow> ('c, 'w) state" where
  "popTransactionContext s =
     (if transactionContextStack s = [] then s
      else s\<lparr>transactionContextStack := butlast (transactionContextStack s)\<rparr>)"

subsection \<open>atomic.ts\<close>

text \<open>
  \<open>'x\<close> is the argument tuple \<^verbatim>\<open>...args\<close>, \<open>'r\<close> the action's result. An action is the
  caller's operation on its own state. The closure
  \<^verbatim>\<open>() => compensation(result, ...args)\<close> is the value \<open>compensation result args\<close>.
\<close>

definition atomic ::
  "('x \<Rightarrow> 'w \<Rightarrow> (error + 'r) \<times> 'w) \<Rightarrow> ('r \<Rightarrow> 'x \<Rightarrow> 'c) \<Rightarrow> 'x \<Rightarrow> ('r, 'c, 'w) async" where
  "atomic action compensation args s =
     (case getCurrentTransactionContext s of
        None \<Rightarrow> Some (Inl (Error ''Cannot find current transaction context''), s)
      | Some ctx \<Rightarrow>
          (case action args (world s) of
             (Inl e, w) \<Rightarrow> Some (Inl e, s\<lparr>world := w\<rparr>)
           | (Inr result, w) \<Rightarrow>
               Some (Inr result,
                 s\<lparr>world := w,
                   compensations :=
                     (compensations s)(ctx := compensations s ctx @ [compensation result args])\<rparr>)))"

definition atomicExplicit ::
  "('x \<Rightarrow> 'w \<Rightarrow> (error + 'r) \<times> 'w) \<Rightarrow> ('r \<Rightarrow> 'x \<Rightarrow> 'c) \<Rightarrow> ctx_ref \<Rightarrow> 'x \<Rightarrow> ('r, 'c, 'w) async" where
  "atomicExplicit action compensation ctx args s =
     (case action args (world s) of
        (Inl e, w) \<Rightarrow> Some (Inl e, s\<lparr>world := w\<rparr>)
      | (Inr result, w) \<Rightarrow>
          Some (Inr result,
            s\<lparr>world := w,
              compensations :=
                (compensations s)(ctx := compensations s ctx @ [compensation result args])\<rparr>))"

subsection \<open>transaction.ts\<close>

text \<open>
  The body is called with the context when \<^verbatim>\<open>fn.length > 0\<close> and with no argument
  otherwise; the two shapes are the two constructors.
\<close>

datatype ('a, 'c, 'w) body = Explicit "ctx_ref \<Rightarrow> ('a, 'c, 'w) async" | Auto "('a, 'c, 'w) async"

fun call_body :: "('a, 'c, 'w) body \<Rightarrow> ctx_ref \<Rightarrow> ('a, 'c, 'w) async" where
  "call_body (Explicit fn) ctx = fn ctx"
| "call_body (Auto fn) ctx = fn"

text \<open>
  The loop of the \<^verbatim>\<open>catch\<close> block. \<^verbatim>\<open>for (const rollback of array)\<close> keeps an index
  into the array and reads the array's length and element anew at every step; the
  context is still on the stack while the loop runs, so a rollback that awaits an atomic
  call makes the array longer and the loop goes on to the new element. Every rollback is
  awaited in turn, a rejection is pushed onto \<^verbatim>\<open>rollbackErrors\<close> and the loop goes on.
  The loop need not end.
\<close>

partial_function (option) rollback_loop ::
  "('c \<Rightarrow> (unit, 'c, 'w) async) \<Rightarrow> ctx_ref \<Rightarrow> nat \<Rightarrow> error list \<Rightarrow> ('c, 'w) state \<Rightarrow>
   (error list \<times> ('c, 'w) state) option" where
  "rollback_loop call ctx i rollbackErrors s =
     (if i < length (compensations s ctx) then
        (case call (compensations s ctx ! i) s of
           None \<Rightarrow> None
         | Some (Inl rollbackError, s') \<Rightarrow>
             rollback_loop call ctx (Suc i) (rollbackErrors @ [rollbackError]) s'
         | Some (Inr _, s') \<Rightarrow> rollback_loop call ctx (Suc i) rollbackErrors s')
      else Some (rollbackErrors, s))"

text \<open>
  The state in which the body starts: the fresh context, with no compensation, is on top
  of the stack.
\<close>

definition enter :: "('c, 'w) state \<Rightarrow> ('c, 'w) state" where
  "enter s =
     pushTransactionContext (allocated s)
       (s\<lparr>allocated := Suc (allocated s),
          compensations := (compensations s)(allocated s := [])\<rparr>)"

text \<open>\<^verbatim>\<open>ctx.compensations.reverse()\<close> reverses the array in place and returns it.\<close>

definition reverse_in_place :: "ctx_ref \<Rightarrow> ('c, 'w) state \<Rightarrow> ('c, 'w) state" where
  "reverse_in_place ctx s = s\<lparr>compensations := (compensations s)(ctx := rev (compensations s ctx))\<rparr>"

definition transaction ::
  "('c \<Rightarrow> (unit, 'c, 'w) async) \<Rightarrow> ('a, 'c, 'w) body \<Rightarrow> ('a, 'c, 'w) async" where
  "transaction call fn s =
     (let ctx = allocated s in
      case call_body fn ctx (enter s) of
        None \<Rightarrow> None
      | Some (Inr result, s') \<Rightarrow> Some (Inr result, popTransactionContext s')
      | Some (Inl error, s') \<Rightarrow>
          (case rollback_loop call ctx 0 [] (reverse_in_place ctx s') of
             None \<Rightarrow> None
           | Some (rollbackErrors, s'') \<Rightarrow>
               if length rollbackErrors > 0
               then Some (Inl (AggregateError rollbackErrors ''One or more rollbacks failed''),
                          popTransactionContext s'')
               else Some (Inl error, popTransactionContext s'')))"

subsection \<open>Compensations that stay with the caller's state\<close>

text \<open>
  The compensations of the repository's tests and documentation act on the caller's own
  state and never reach the context store. Such a closure is a function on \<open>'w\<close> that
  resolves or rejects, and calling it applies it to the caller's part of the state.
\<close>

type_synonym 'w rollback = "'w \<Rightarrow> (error + unit) \<times> 'w"

definition plain :: "'w rollback \<Rightarrow> (unit, 'w rollback, 'w) async" where
  "plain rollback s = (case rollback (world s) of (v, w) \<Rightarrow> Some (v, s\<lparr>world := w\<rparr>))"

subsection \<open>Client code: sequencing inside an async function\<close>

text \<open>
  Bodies are caller code. The three forms below are what a body is made of in the tests:
  \<^verbatim>\<open>return v\<close>, \<^verbatim>\<open>throw e\<close>, and \<^verbatim>\<open>const x = await m; ...\<close>, where a rejection
  of \<open>m\<close> leaves the function at once.
\<close>

definition resolved :: "'a \<Rightarrow> ('a, 'c, 'w) async" where
  "resolved v s = Some (Inr v, s)"

definition rejected :: "error \<Rightarrow> ('a, 'c, 'w) async" where
  "rejected e s = Some (Inl e, s)"

definition await_then ::
  "('a, 'c, 'w) async \<Rightarrow> ('a \<Rightarrow> ('b, 'c, 'w) async) \<Rightarrow> ('b, 'c, 'w) async" where
  "await_then m k s =
     (case m s of
        None \<Rightarrow> None
      | Some (Inl e, s') \<Rightarrow> Some (Inl e, s')
      | Some (Inr v, s') \<Rightarrow> k v s')"

text \<open>
  A body that awaits one atomic call after the other, in list order. A call is an action,
  its compensation and the arguments; \<open>wrapper\<close> is \<open>atomic\<close>, or \<open>atomicExplicit\<close> bound
  to a context.
\<close>

type_synonym ('x, 'r, 'c, 'w) call =
  "('x \<Rightarrow> 'w \<Rightarrow> (error + 'r) \<times> 'w) \<times> ('r \<Rightarrow> 'x \<Rightarrow> 'c) \<times> 'x"

fun atomic_calls ::
  "(('x \<Rightarrow> 'w \<Rightarrow> (error + 'r) \<times> 'w) \<Rightarrow> ('r \<Rightarrow> 'x \<Rightarrow> 'c) \<Rightarrow> 'x \<Rightarrow> ('r, 'c, 'w) async) \<Rightarrow>
   ('x, 'r, 'c, 'w) call list \<Rightarrow> ('r list, 'c, 'w) async" where
  "atomic_calls wrapper [] = resolved []"
| "atomic_calls wrapper ((action, compensation, args) # calls) =
     await_then (wrapper action compensation args)
       (\<lambda>r. await_then (atomic_calls wrapper calls) (\<lambda>rs. resolved (r # rs)))"

subsection \<open>Specification vocabulary\<close>

text \<open>
  The actions of a list of calls, run one after the other on the caller's state:
  \<open>Some\<close> of their results and the state reached when every one of them succeeds.
\<close>

fun run_actions :: "('x, 'r, 'c, 'w) call list \<Rightarrow> 'w \<Rightarrow> ('r list \<times> 'w) option" where
  "run_actions [] w = Some ([], w)"
| "run_actions ((action, compensation, args) # calls) w =
     (case action args w of
        (Inl e, w') \<Rightarrow> None
      | (Inr r, w') \<Rightarrow>
          (case run_actions calls w' of
             None \<Rightarrow> None
           | Some (rs, w'') \<Rightarrow> Some (r # rs, w'')))"

text \<open>
  The compensation closures that a list of calls with the given results stands for:
  the \<open>i\<close>-th is the \<open>i\<close>-th compensation applied to the \<open>i\<close>-th result and arguments.
\<close>

definition registered :: "('x, 'r, 'c, 'w) call list \<Rightarrow> 'r list \<Rightarrow> 'c list" where
  "registered calls rs = map (\<lambda>((action, compensation, args), r). compensation r args) (zip calls rs)"

text \<open>
  Calling every closure of a fixed list once, first to last, whatever each one answers:
  the rejections met on the way, in the order met, and the state that results. It is
  \<open>None\<close> when one of the calls never settles.
\<close>

fun attempt_all ::
  "('c \<Rightarrow> (unit, 'c, 'w) async) \<Rightarrow> 'c list \<Rightarrow> ('c, 'w) state \<Rightarrow> (error list \<times> ('c, 'w) state) option" where
  "attempt_all call [] s = Some ([], s)"
| "attempt_all call (k # ks) s =
     (case call k s of
        None \<Rightarrow> None
      | Some (v, s') \<Rightarrow>
          (case attempt_all call ks s' of
             None \<Rightarrow> None
           | Some (es, s'') \<Rightarrow> Some ((case v of Inl e \<Rightarrow> [e] | Inr _ \<Rightarrow> []) @ es, s'')))"

text \<open>
  The closures of a list, called one after the other from state \<open>s\<close>, each settle and none
  of them changes the compensation array of context \<open>ctx\<close>.
\<close>

fun undisturbed ::
  "('c \<Rightarrow> (unit, 'c, 'w) async) \<Rightarrow> ctx_ref \<Rightarrow> 'c list \<Rightarrow> ('c, 'w) state \<Rightarrow> bool" where
  "undisturbed call ctx [] s = True"
| "undisturbed call ctx (k # ks) s =
     (case call k s of
        None \<Rightarrow> False
      | Some (v, s') \<Rightarrow> compensations s' ctx = compensations s ctx \<and> undisturbed call ctx ks s')"

text \<open>
  The same for closures that stay with the caller's state: the state that results, and
  the rejections met on the way.
\<close>

fun run_in_order :: "'w rollback list \<Rightarrow> 'w \<Rightarrow> 'w" where
  "run_in_order [] w = w"
| "run_in_order (k # ks) w = run_in_order ks (snd (k w))"

fun failures_in_order :: "'w rollback list \<Rightarrow> 'w \<Rightarrow> error list" where
  "failures_in_order [] w = []"
| "failures_in_order (k # ks) w =
     (case fst (k w) of
        Inl e \<Rightarrow> e # failures_in_order ks (snd (k w))
      | Inr _ \<Rightarrow> failures_in_order ks (snd (k w)))"

text \<open>The state of a process that has run no transaction yet.\<close>

definition initial :: "'w \<Rightarrow> ('c, 'w) state" where
  "initial w = \<lparr>transactionContextStack = [], compensations = (\<lambda>_. []), allocated = 0, world = w\<rparr>"

subsection \<open>Callbacks of the test suite\<close>

text \<open>
  The tests observe the engine through callbacks that push a line onto an array
  (\<^verbatim>\<open>callOrder.push(`compensation1: ${result}, ${val}`)\<close>) or throw
  (\<^verbatim>\<open>throw new Error('Compensation failure 1')\<close>). Here the caller's state is that
  array; a line is the callback's name, the result and the argument it was called with.
  A failing compensation leaves its line as well, so that the attempt is seen.
\<close>

type_synonym log = "(string \<times> nat \<times> nat) list"

definition logging :: "string \<Rightarrow> nat \<Rightarrow> nat \<Rightarrow> log rollback" where
  "logging name result val w = (Inr (), w @ [(name, result, val)])"

definition failing :: "string \<Rightarrow> nat \<Rightarrow> nat \<Rightarrow> log rollback" where
  "failing name result val w = (Inl (Error name), w @ [(name, result, val)])"

definition adding :: "nat \<Rightarrow> nat \<Rightarrow> log \<Rightarrow> (error + nat) \<times> log" where
  "adding n val w = (Inr (val + n), w)"

definition multiplying :: "nat \<Rightarrow> nat \<Rightarrow> log \<Rightarrow> (error + nat) \<times> log" where
  "multiplying n val w = (Inr (val * n), w)"

definition throwing :: "string \<Rightarrow> nat \<Rightarrow> log \<Rightarrow> (error + nat) \<times> log" where
  "throwing message val w = (Inl (Error message), w)"

text \<open>
  The calls of the test \<^verbatim>\<open>should execute compensation functions in reverse order when
  transaction fails\<close>: \<^verbatim>\<open>atomicFunc1(5)\<close>, then \<^verbatim>\<open>atomicFunc2(2)\<close>.
\<close>

definition two_calls :: "(nat, nat, log rollback, log) call list" where
  "two_calls = [(adding 1, logging ''compensation1'', 5), (multiplying 3, logging ''compensation2'', 2)]"

text \<open>
  The calls of the test \<^verbatim>\<open>should aggregate multiple compensation failures into an
  AggregateError\<close>: both compensations throw.
\<close>

definition failing_calls :: "(nat, nat, log rollback, log) call list" where
  "failing_calls = [(adding 1, failing ''Compensation failure 1'', 3),
                    (multiplying 2, failing ''Compensation failure 2'', 5)]"

text \<open>
  The test \<^verbatim>\<open>should execute compensation functions for nested transactions with inner
  failure\<close>: the outer body awaits \<^verbatim>\<open>outerAtomic(5)\<close> and then a transaction whose
  body awaits \<^verbatim>\<open>innerAtomic(3)\<close> and throws.
\<close>

definition inner_failing :: "(unit, log rollback, log) body" where
  "inner_failing =
     Auto (await_then (atomic (multiplying 2) (logging ''inner compensation'') 3)
             (\<lambda>_. rejected (Error ''Inner failure'')))"

definition outer_first :: "(nat, log rollback, log) async" where
  "outer_first = atomic (adding 10) (logging ''outer compensation'') 5"

definition nesting :: "(unit, log rollback, log) body" where
  "nesting =
     Auto (await_then outer_first
             (\<lambda>_. await_then (transaction plain inner_failing) (\<lambda>_. resolved ())))"

text \<open>A body statement that reads the current context: \<^verbatim>\<open>getCurrentTransactionContext()\<close>.\<close>

definition current :: "(ctx_ref option, 'c, 'w) async" where
  "current s = Some (Inr (getCurrentTransactionContext s), s)"

subsection \<open>Compensations that await atomic calls\<close>

text \<open>
  Three compensations as closure values. \<open>Line\<close> pushes its line onto the array, as
  \<open>logging\<close> does. \<open>Line_then_atomic\<close> pushes its line and then awaits an implicit atomic
  call whose action returns its argument and whose compensation is a \<open>Line\<close>:
  \<^verbatim>\<open>async (result, val) => { callOrder.push(...); await again(0); }\<close> with
  \<^verbatim>\<open>again = atomic(async (v) => v, async (r, v) => { callOrder.push(...) })\<close>.
  \<open>Line_then_explicit ctx\<close> does the same with the explicit form on the context \<open>ctx\<close>
  that the closure holds.
\<close>

datatype closure =
    Line string nat nat
  | Line_then_atomic string nat nat
  | Line_then_explicit ctx_ref string nat nat

fun call_closure :: "closure \<Rightarrow> (unit, closure, log) async" where
  "call_closure (Line name result val) s =
     Some (Inr (), s\<lparr>world := world s @ [(name, result, val)]\<rparr>)"
| "call_closure (Line_then_atomic name result val) s =
     await_then (atomic (adding 0) (Line ''registered during rollback'') 0)
       (\<lambda>_. resolved ()) (s\<lparr>world := world s @ [(name, result, val)]\<rparr>)"
| "call_closure (Line_then_explicit ctx name result val) s =
     await_then (atomicExplicit (adding 0) (Line ''registered during rollback'') ctx 0)
       (\<lambda>_. resolved ()) (s\<lparr>world := world s @ [(name, result, val)]\<rparr>)"

text \<open>
  The two calls of the test above, where the second compensation awaits an atomic call,
  and where it awaits an explicit call on a context of its own choice.
\<close>

definition reentrant_calls :: "(nat, nat, closure, log) call list" where
  "reentrant_calls =
     [(adding 1, Line ''compensation1'', 5), (multiplying 3, Line_then_atomic ''compensation2'', 2)]"

definition sideways_calls :: "(nat, nat, closure, log) call list" where
  "sideways_calls =
     [(adding 1, Line ''compensation1'', 5),
      (multiplying 3, Line_then_explicit 7 ''compensation2'', 2)]"

section \<open>Properties\<close>

lemmas fixtures =
  logging_def failing_def adding_def multiplying_def throwing_def two_calls_def failing_calls_def
  inner_failing_def outer_first_def nesting_def current_def reentrant_calls_def sideways_calls_def

lemmas run_defs =
  initial_def enter_def pushTransactionContext_def popTransactionContext_def
  getCurrentTransactionContext_def atomic_def atomicExplicit_def transaction_def
  await_then_def rejected_def resolved_def reverse_in_place_def plain_def

subsection \<open>The context store\<close>

lemma getCurrent_push [simp]:
  "getCurrentTransactionContext (pushTransactionContext ctx s) = Some ctx"
  by (simp add: getCurrentTransactionContext_def pushTransactionContext_def)

lemma pop_push [simp]:
  "popTransactionContext (pushTransactionContext ctx s) = s"
  by (simp add: popTransactionContext_def pushTransactionContext_def)

lemma stack_pop:
  "transactionContextStack (popTransactionContext s) = butlast (transactionContextStack s)"
  by (simp add: popTransactionContext_def)

lemma world_pop [simp]: "world (popTransactionContext s) = world s"
  by (simp add: popTransactionContext_def)

lemma compensations_pop [simp]: "compensations (popTransactionContext s) = compensations s"
  by (simp add: popTransactionContext_def)

lemma allocated_pop [simp]: "allocated (popTransactionContext s) = allocated s"
  by (simp add: popTransactionContext_def)

lemma enter_simps [simp]:
  "transactionContextStack (enter s) = transactionContextStack s @ [allocated s]"
  "compensations (enter s) = (compensations s)(allocated s := [])"
  "allocated (enter s) = Suc (allocated s)"
  "world (enter s) = world s"
  "getCurrentTransactionContext (enter s) = Some (allocated s)"
  by (simp_all add: enter_def pushTransactionContext_def getCurrentTransactionContext_def)

lemma reverse_in_place_simps [simp]:
  "transactionContextStack (reverse_in_place ctx s) = transactionContextStack s"
  "compensations (reverse_in_place ctx s) = (compensations s)(ctx := rev (compensations s ctx))"
  "allocated (reverse_in_place ctx s) = allocated s"
  "world (reverse_in_place ctx s) = world s"
  by (simp_all add: reverse_in_place_def)

lemma initial_simps [simp]:
  "transactionContextStack (initial w) = []"
  "compensations (initial w) = (\<lambda>_. [])"
  "allocated (initial w) = 0"
  "world (initial w) = w"
  by (simp_all add: initial_def)

subsection \<open>The rollback loop\<close>

text \<open>
  When no call changes the array of the context, the loop from index \<open>i\<close> is one call of
  each remaining closure, in array order, and it ends.
\<close>

lemma rollback_loop_undisturbed:
  assumes "drop i (compensations s ctx) = ks"
      and "i \<le> length (compensations s ctx)"
      and "undisturbed call ctx ks s"
  shows "\<exists>es s'. attempt_all call ks s = Some (es, s') \<and>
           rollback_loop call ctx i acc s = Some (acc @ es, s') \<and>
           compensations s' ctx = compensations s ctx"
  using assms
proof (induction ks arbitrary: i acc s)
  case Nil
  then have "\<not> i < length (compensations s ctx)"
    by simp
  then show ?case
    by (subst rollback_loop.simps) simp
next
  case (Cons k ks)
  from Cons.prems(1) have lt: "i < length (compensations s ctx)"
    by (metis drop_all leI list.distinct(1))
  from Cons.prems(1) lt have at: "compensations s ctx ! i = k"
    by (metis Cons_nth_drop_Suc list.inject)
  from Cons.prems(1) lt have rest: "drop (Suc i) (compensations s ctx) = ks"
    by (metis Cons_nth_drop_Suc list.inject)
  from Cons.prems(3) obtain v s1 where
    step: "call k s = Some (v, s1)" and
    same: "compensations s1 ctx = compensations s ctx" and
    quiet: "undisturbed call ctx ks s1"
    by (auto split: option.splits)
  have "drop (Suc i) (compensations s1 ctx) = ks" "Suc i \<le> length (compensations s1 ctx)"
    using rest lt same by simp_all
  from Cons.IH [OF this quiet, of "acc @ (case v of Inl e \<Rightarrow> [e] | Inr _ \<Rightarrow> [])"]
  obtain es s' where
    all: "attempt_all call ks s1 = Some (es, s')" and
    loop: "rollback_loop call ctx (Suc i) (acc @ (case v of Inl e \<Rightarrow> [e] | Inr _ \<Rightarrow> [])) s1 =
             Some ((acc @ (case v of Inl e \<Rightarrow> [e] | Inr _ \<Rightarrow> [])) @ es, s')" and
    kept: "compensations s' ctx = compensations s1 ctx"
    by blast
  have "rollback_loop call ctx i acc s =
      Some (acc @ (case v of Inl e \<Rightarrow> [e] | Inr _ \<Rightarrow> []) @ es, s')"
    using lt at step loop
    by (subst rollback_loop.simps) (simp split: sum.splits)
  then show ?case
    using step all kept same by simp
qed

lemma undisturbed_plain [simp]: "undisturbed plain ctx ks s"
  by (induction ks arbitrary: s) (simp_all add: plain_def split: prod.split)

lemma attempt_all_plain:
  "attempt_all plain ks s =
     Some (failures_in_order ks (world s), s\<lparr>world := run_in_order ks (world s)\<rparr>)"
  by (induction ks arbitrary: s) (auto simp: plain_def split: prod.split sum.split)

lemma rollback_loop_plain:
  "rollback_loop plain ctx 0 [] s =
     Some (failures_in_order (compensations s ctx) (world s),
           s\<lparr>world := run_in_order (compensations s ctx) (world s)\<rparr>)"
  using rollback_loop_undisturbed [of 0 s ctx "compensations s ctx" plain "[]"]
  by (simp add: attempt_all_plain)

subsection \<open>The exits of a transaction\<close>

text \<open>
  The exit of the \<^verbatim>\<open>try\<close> block, and the exits of the \<^verbatim>\<open>catch\<close> block. The first
  two hold for every \<open>call\<close>, also for compensations that register further compensations
  while the loop runs: whatever rejections the loop has collected when it ends are the
  aggregate, and the error of the body is raised when it has collected none.
\<close>

lemma transaction_commit:
  assumes "call_body fn (allocated s) (enter s) = Some (Inr result, s')"
  shows "transaction call fn s = Some (Inr result, popTransactionContext s')"
  using assms by (simp add: transaction_def)

lemma transaction_fail_loop:
  assumes "call_body fn (allocated s) (enter s) = Some (Inl e, s')"
      and "rollback_loop call (allocated s) 0 [] (reverse_in_place (allocated s) s') = Some (errs, s'')"
  shows "transaction call fn s =
           Some (Inl (if errs = [] then e
                      else AggregateError errs ''One or more rollbacks failed''),
                 popTransactionContext s'')"
  using assms by (simp add: transaction_def)

lemma transaction_fail:
  assumes body: "call_body fn (allocated s) (enter s) = Some (Inl e, s')"
      and quiet: "undisturbed call (allocated s) (rev (compensations s' (allocated s)))
                    (reverse_in_place (allocated s) s')"
  shows "\<exists>errs s''.
           attempt_all call (rev (compensations s' (allocated s)))
             (reverse_in_place (allocated s) s') = Some (errs, s'') \<and>
           transaction call fn s =
             Some (Inl (if errs = [] then e
                        else AggregateError errs ''One or more rollbacks failed''),
                   popTransactionContext s'')"
proof -
  let ?start = "reverse_in_place (allocated s) s'"
  have "drop 0 (compensations ?start (allocated s)) = rev (compensations s' (allocated s))"
    by simp
  from rollback_loop_undisturbed [OF this _ quiet, of "[]"]
  obtain errs s'' where
    all: "attempt_all call (rev (compensations s' (allocated s))) ?start = Some (errs, s'')" and
    loop: "rollback_loop call (allocated s) 0 [] ?start = Some (errs, s'')"
    by auto
  from transaction_fail_loop [OF body loop] all show ?thesis
    by blast
qed

lemma transaction_fail_plain:
  assumes "call_body fn (allocated s) (enter s) = Some (Inl e, s')"
  shows "transaction plain fn s =
     Some (Inl (if failures_in_order (rev (compensations s' (allocated s))) (world s') = [] then e
                else AggregateError (failures_in_order (rev (compensations s' (allocated s))) (world s'))
                       ''One or more rollbacks failed''),
           popTransactionContext
             (s'\<lparr>compensations := (compensations s')(allocated s := rev (compensations s' (allocated s))),
                 world := run_in_order (rev (compensations s' (allocated s))) (world s')\<rparr>))"
  using transaction_fail_loop [OF assms rollback_loop_plain]
  by (simp add: reverse_in_place_def)

subsection \<open>Balance of the context stack\<close>

text \<open>
  A body is balanced when it ends with the stack it started with. The wrappers are
  balanced, a sequence of balanced steps is, and a transaction around a balanced body is,
  when its compensations stay with the caller's state: each of its exits pops the one
  context it pushed.
\<close>

lemma transaction_stack:
  assumes "call_body fn (allocated s) (enter s) = Some (v, s')"
      and "transactionContextStack s' = transactionContextStack (enter s)"
  shows "\<exists>r s''. transaction plain fn s = Some (r, s'') \<and>
           transactionContextStack s'' = transactionContextStack s"
proof (cases v)
  case (Inl e)
  with assms(1) have "call_body fn (allocated s) (enter s) = Some (Inl e, s')" by simp
  from transaction_fail_plain [OF this] assms(2) show ?thesis
    by (simp add: stack_pop)
next
  case (Inr r)
  with assms(1) have "call_body fn (allocated s) (enter s) = Some (Inr r, s')" by simp
  from transaction_commit [OF this] assms(2) show ?thesis
    by (simp add: stack_pop)
qed

lemma atomic_stack:
  "atomic action compensation args s = Some (v, s') \<Longrightarrow>
     transactionContextStack s' = transactionContextStack s"
  by (auto simp add: atomic_def split: option.splits prod.splits sum.splits)

lemma atomicExplicit_stack:
  "atomicExplicit action compensation ctx args s = Some (v, s') \<Longrightarrow>
     transactionContextStack s' = transactionContextStack s"
  by (auto simp add: atomicExplicit_def split: prod.splits sum.splits)

lemma await_then_stack:
  assumes run: "await_then m k s = Some (v, s')"
      and first: "\<And>x s1. m s = Some (x, s1) \<Longrightarrow>
             transactionContextStack s1 = transactionContextStack s"
      and rest: "\<And>x y s1 s2. m s = Some (Inr x, s1) \<Longrightarrow> k x s1 = Some (y, s2) \<Longrightarrow>
             transactionContextStack s2 = transactionContextStack s1"
  shows "transactionContextStack s' = transactionContextStack s"
proof (cases "m s")
  case None
  with run show ?thesis
    by (simp add: await_then_def)
next
  case (Some p)
  obtain x s1 where p: "p = (x, s1)"
    by (cases p)
  show ?thesis
  proof (cases x)
    case (Inl e)
    with Some p run have "s' = s1"
      by (simp add: await_then_def)
    with first [of x s1] Some p show ?thesis
      by simp
  next
    case (Inr y)
    with Some p run have "k y s1 = Some (v, s')"
      by (simp add: await_then_def)
    from rest [OF _ this] first [of x s1] Some p Inr show ?thesis
      by simp
  qed
qed

subsection \<open>The atomic wrappers\<close>

lemma atomic_resolves:
  assumes "getCurrentTransactionContext s = Some ctx"
  shows "atomic action compensation args s = atomicExplicit action compensation ctx args s"
  using assms by (simp add: atomic_def atomicExplicit_def)

lemma getCurrent_atomicExplicit:
  "atomicExplicit action compensation ctx args s = Some (v, s') \<Longrightarrow>
     getCurrentTransactionContext s' = getCurrentTransactionContext s"
  by (auto simp add: atomicExplicit_def getCurrentTransactionContext_def split: prod.splits sum.splits)

lemma atomicExplicit_settles:
  "\<exists>v s'. atomicExplicit action compensation ctx args s = Some (v, s')"
  by (simp add: atomicExplicit_def split: prod.split sum.split)

text \<open>
  Inside a body whose context is current, a run of implicit calls is the same run of
  explicit calls on that context: no call changes the stack.
\<close>

lemma atomic_calls_resolve:
  assumes "getCurrentTransactionContext s = Some ctx"
  shows "atomic_calls atomic calls s =
         atomic_calls (\<lambda>action compensation. atomicExplicit action compensation ctx) calls s"
  using assms
proof (induction calls arbitrary: s)
  case Nil
  show ?case by simp
next
  case (Cons call calls)
  obtain action compensation args where call: "call = (action, compensation, args)"
    by (cases call)
  obtain v s' where step: "atomicExplicit action compensation ctx args s = Some (v, s')"
    using atomicExplicit_settles [of action compensation ctx args s] by auto
  have first: "atomic action compensation args s = Some (v, s')"
    unfolding atomic_resolves [OF Cons.prems] by (rule step)
  have "getCurrentTransactionContext s' = Some ctx"
    using getCurrent_atomicExplicit [OF step] Cons.prems by simp
  then have tail: "atomic_calls atomic calls s' =
      atomic_calls (\<lambda>action compensation. atomicExplicit action compensation ctx) calls s'"
    by (rule Cons.IH)
  show ?case
  proof (cases v)
    case (Inl e)
    then show ?thesis
      using first step by (simp add: call await_then_def)
  next
    case (Inr r)
    then show ?thesis
      using first step tail by (simp add: call await_then_def)
  qed
qed

text \<open>
  When every action succeeds, the calls append their closures to the context, one per
  call and in call order, and leave everything else of the engine as it was.
\<close>

lemma atomic_calls_explicit:
  assumes "run_actions calls (world s) = Some (rs, w)"
  shows "atomic_calls (\<lambda>action compensation. atomicExplicit action compensation ctx) calls s =
           Some (Inr rs,
             s\<lparr>world := w,
               compensations := (compensations s)(ctx := compensations s ctx @ registered calls rs)\<rparr>)"
  using assms
proof (induction calls arbitrary: s rs)
  case Nil
  then show ?case by (simp add: resolved_def registered_def)
next
  case (Cons call calls)
  obtain action compensation args where call: "call = (action, compensation, args)"
    by (cases call)
  from Cons.prems obtain r w' rs' where
    act: "action args (world s) = (Inr r, w')" and
    rest: "run_actions calls w' = Some (rs', w)" and
    rs: "rs = r # rs'"
    by (auto simp: call split: prod.splits sum.splits option.splits)
  let ?s' = "s\<lparr>world := w',
      compensations := (compensations s)(ctx := compensations s ctx @ [compensation r args])\<rparr>"
  have step: "atomicExplicit action compensation ctx args s = Some (Inr r, ?s')"
    using act by (simp add: atomicExplicit_def)
  have "run_actions calls (world ?s') = Some (rs', w)"
    using rest by simp
  from Cons.IH [OF this]
  have tail: "atomic_calls (\<lambda>action compensation. atomicExplicit action compensation ctx) calls ?s' =
      Some (Inr rs', ?s'\<lparr>world := w,
         compensations := (compensations ?s')(ctx := compensations ?s' ctx @ registered calls rs')\<rparr>)" .
  have final: "?s'\<lparr>world := w,
         compensations := (compensations ?s')(ctx := compensations ?s' ctx @ registered calls rs')\<rparr> =
      s\<lparr>world := w,
         compensations := (compensations s)(ctx := compensations s ctx @ registered (call # calls) rs)\<rparr>"
    by (simp add: call rs registered_def)
  show ?case
    unfolding final [symmetric]
    using step tail by (simp add: call rs await_then_def resolved_def)
qed

lemma run_actions_length:
  "run_actions calls w = Some (rs, w') \<Longrightarrow> length rs = length calls"
  by (induction calls arbitrary: rs w)
    (auto split: prod.splits sum.splits option.splits)

text \<open>
  The body of \<open>N\<close> atomic calls and a \<^verbatim>\<open>throw\<close>, in both forms: it fails with the thrown
  error and leaves the \<open>N\<close> closures on the context, in call order.
\<close>

lemma calls_then_throw:
  assumes "run_actions calls (world s) = Some (rs, w)"
  shows "call_body (Auto (await_then (atomic_calls atomic calls) (\<lambda>_. rejected e)))
           (allocated s) (enter s) =
         Some (Inl e, (enter s)\<lparr>world := w,
                 compensations := (compensations s)(allocated s := registered calls rs)\<rparr>)"
    and "call_body (Explicit (\<lambda>ctx. await_then
             (atomic_calls (\<lambda>action compensation. atomicExplicit action compensation ctx) calls)
             (\<lambda>_. rejected e))) (allocated s) (enter s) =
         Some (Inl e, (enter s)\<lparr>world := w,
                 compensations := (compensations s)(allocated s := registered calls rs)\<rparr>)"
proof -
  let ?ctx = "allocated s"
  let ?m = "atomic_calls (\<lambda>action compensation. atomicExplicit action compensation ?ctx) calls"
  let ?s' = "(enter s)\<lparr>world := w,
      compensations := (compensations s)(?ctx := registered calls rs)\<rparr>"
  have "?m (enter s) = Some (Inr rs, (enter s)\<lparr>world := w,
      compensations := (compensations (enter s))(?ctx := compensations (enter s) ?ctx @ registered calls rs)\<rparr>)"
    using assms by (intro atomic_calls_explicit) simp
  then have calls: "?m (enter s) = Some (Inr rs, ?s')"
    by simp
  have same: "atomic_calls atomic calls (enter s) = ?m (enter s)"
    by (rule atomic_calls_resolve) simp
  show "call_body (Explicit (\<lambda>ctx. await_then
             (atomic_calls (\<lambda>action compensation. atomicExplicit action compensation ctx) calls)
             (\<lambda>_. rejected e))) ?ctx (enter s) = Some (Inl e, ?s')"
    using calls by (simp add: await_then_def rejected_def)
  show "call_body (Auto (await_then (atomic_calls atomic calls) (\<lambda>_. rejected e))) ?ctx (enter s) =
      Some (Inl e, ?s')"
    using calls same by (simp add: await_then_def rejected_def)
qed

text \<open>
  With compensations that stay with the caller's state, the caller's state after the
  transaction is the state after the actions taken through the \<open>N\<close> compensations, last
  registered first.
\<close>

lemma calls_then_throw_plain:
  assumes "run_actions calls (world s) = Some (rs, w)"
  shows "\<exists>s''. transaction plain (Auto (await_then (atomic_calls atomic calls) (\<lambda>_. rejected e))) s =
           Some (Inl (if failures_in_order (rev (registered calls rs)) w = [] then e
                      else AggregateError (failures_in_order (rev (registered calls rs)) w)
                             ''One or more rollbacks failed''), s'') \<and>
           world s'' = run_in_order (rev (registered calls rs)) w"
proof -
  let ?failed = "(enter s)\<lparr>world := w,
      compensations := (compensations s)(allocated s := registered calls rs)\<rparr>"
  have list: "compensations ?failed (allocated s) = registered calls rs" and w: "world ?failed = w"
    by simp_all
  from transaction_fail_plain [OF calls_then_throw(1) [OF assms, of e]]
  show ?thesis
    unfolding list w by (intro exI conjI, assumption) simp
qed

subsection \<open>Runs of the test suite\<close>

text \<open>
  The expectations of the repository's tests, evaluated on the model: what the
  transaction returns or throws, and what the callbacks have written.
\<close>

lemma test_explicit_commit:
  "transaction plain
     (Explicit (\<lambda>ctx. atomicExplicit (multiplying 2) (logging ''compensation'') ctx 10))
     (initial []) =
   Some (Inr 20, \<lparr>transactionContextStack = [],
                   compensations = (\<lambda>_. [])(0 := [logging ''compensation'' 20 10]),
                   allocated = 1, world = []\<rparr>)"
  by (simp add: fixtures run_defs)

lemma test_reverse_order:
  "transaction plain (Explicit (\<lambda>ctx. await_then
          (atomic_calls (\<lambda>action compensation. atomicExplicit action compensation ctx) two_calls)
          (\<lambda>_. rejected (Error ''Transaction error'') :: (unit, log rollback, log) async)))
     (initial []) =
   Some (Inl (Error ''Transaction error''),
     \<lparr>transactionContextStack = [],
        compensations = (\<lambda>_. [])
          (0 := [logging ''compensation2'' 6 2, logging ''compensation1'' 6 5]),
        allocated = 1,
        world = [(''compensation2'', 6, 2), (''compensation1'', 6, 5)]\<rparr>)"
  by (simp add: fixtures run_defs rollback_loop.simps)

lemma test_action_failure:
  "transaction plain (Auto (atomic (throwing ''Action error'') (logging ''compensation'') 4))
     (initial []) =
   Some (Inl (Error ''Action error''),
     \<lparr>transactionContextStack = [], compensations = (\<lambda>_. [])(0 := []),
        allocated = 1, world = []\<rparr>)"
  by (simp add: fixtures run_defs rollback_loop.simps)

lemma test_aggregate:
  "map_option (world \<circ> snd)
     (transaction plain (Auto (await_then (atomic_calls atomic failing_calls)
          (\<lambda>_. rejected (Error ''Main error'') :: (unit, log rollback, log) async))) (initial [])) =
   Some [(''Compensation failure 2'', 10, 5), (''Compensation failure 1'', 4, 3)]"
  by (simp add: fixtures run_defs rollback_loop.simps)

lemma test_nested_commit:
  "map_option fst
     (transaction plain (Explicit (\<lambda>ctx.
          await_then (atomicExplicit (adding 1) (logging ''outer'') ctx 5) (\<lambda>outerResult.
          await_then (transaction plain (Explicit (\<lambda>innerCtx.
              atomicExplicit (multiplying 2) (logging ''inner'') innerCtx 10))) (\<lambda>innerResult.
          resolved (outerResult + innerResult))))) (initial [])) = Some (Inr 26)"
  by (simp add: fixtures run_defs)

lemma test_mixed_modes:
  "map_option fst
     (transaction plain (Explicit (\<lambda>ctx.
          await_then (atomic (adding 3) (logging ''auto'') 7) (\<lambda>res1.
          await_then (atomicExplicit (multiplying 5) (logging ''explicit'') ctx 4) (\<lambda>res2.
          resolved (res1 + res2))))) (initial [])) = Some (Inr 30)"
  by (simp add: fixtures run_defs)

lemma test_nested_inner_failure:
  "map_option (transactionContextStack \<circ> snd) (transaction plain nesting (initial [])) = Some []"
  "map_option (allocated \<circ> snd) (transaction plain nesting (initial [])) = Some 2"
  by (simp_all add: fixtures run_defs rollback_loop.simps)

lemma test_current_inside_body:
  "map_option fst (transaction plain (Auto current) (initial ())) = Some (Inr (Some 0))"
  "map_option fst (current (initial () :: (unit rollback, unit) state)) = Some (Inr None)"
  by (simp_all add: fixtures run_defs)

text \<open>
  The bodies with a compensation that awaits an atomic call: what they leave on the
  context when they fail.
\<close>

lemma body_of_reentrant_calls:
  "await_then (atomic_calls atomic reentrant_calls)
     (\<lambda>_. rejected (Error ''Transaction error'') :: (unit, closure, log) async)
     (enter (initial [])) =
   Some (Inl (Error ''Transaction error''),
     \<lparr>transactionContextStack = [0],
        compensations = (\<lambda>_. [])
          (0 := [Line ''compensation1'' 6 5, Line_then_atomic ''compensation2'' 6 2]),
        allocated = 1, world = []\<rparr>)"
  "await_then (atomic_calls atomic sideways_calls)
     (\<lambda>_. rejected (Error ''Transaction error'') :: (unit, closure, log) async)
     (enter (initial [])) =
   Some (Inl (Error ''Transaction error''),
     \<lparr>transactionContextStack = [0],
        compensations = (\<lambda>_. [])
          (0 := [Line ''compensation1'' 6 5, Line_then_explicit 7 ''compensation2'' 6 2]),
        allocated = 1, world = []\<rparr>)"
  by (simp_all add: fixtures run_defs)

lemma call_closure_outside_transaction:
  "call_closure (Line_then_atomic ''compensation2'' 6 2) (initial []) =
     Some (Inl (Error ''Cannot find current transaction context''),
           initial [(''compensation2'', 6, 2)])"
  by (simp add: fixtures run_defs)

section \<open>The claims\<close>

text \<open>
  C1. As stated the claim fails. The loop of the \<^verbatim>\<open>catch\<close> block runs over the live
  array while the context is still current, so a compensation that awaits an atomic call
  adds a closure that the loop runs as well, after all the others. The body below makes
  two successful atomic calls and throws; the second compensation awaits an atomic call.
  Three compensations run, and the one registered last runs last.
\<close>

theorem rollback_runs_late_registration:
  "run_actions reentrant_calls [] = Some ([6, 6], []) \<and>
   map_option (world \<circ> snd)
     (transaction call_closure
        (Auto (await_then (atomic_calls atomic reentrant_calls)
                 (\<lambda>_. rejected (Error ''Transaction error'') :: (unit, closure, log) async)))
        (initial [])) =
     Some [(''compensation2'', 6, 2), (''compensation1'', 6, 5),
           (''registered during rollback'', 0, 0)]"
  by (simp add: fixtures run_defs rollback_loop.simps)

text \<open>
  C1, amended. A body makes \<open>N\<close> atomic calls whose actions all succeed, with results
  \<open>rs\<close>, and then fails. If the compensations, called one after the other, each settle
  and leave the compensation array of the transaction's context as it is, then the
  rollback calls exactly the \<open>N\<close> registered closures, each once, last registered first:
  \<open>compensation\<^sub>N result\<^sub>N args\<^sub>N\<close>, ..., \<open>compensation\<^sub>1 result\<^sub>1 args\<^sub>1\<close>, where
  \<open>result\<^sub>i\<close> is what the \<open>i\<close>-th action returned and \<open>args\<^sub>i\<close> what it was called with.
  The transaction ends in the state these calls leave, with its context popped, and with
  the error of the body or the aggregate of the rejections met. This holds for the
  implicit form in an argument-free body and for the explicit form in a body that takes
  the context. \<open>s'\<close> is the state in which the loop starts.
\<close>

theorem rollback_reverse_order:
  assumes actions: "run_actions calls (world s) = Some (rs, w)"
      and start: "s' = (enter s)\<lparr>world := w,
                     compensations := (compensations s)(allocated s := rev (registered calls rs))\<rparr>"
      and quiet: "undisturbed call (allocated s) (rev (registered calls rs)) s'"
  shows "\<exists>errs s''.
           attempt_all call (rev (registered calls rs)) s' = Some (errs, s'') \<and>
           transaction call
             (Auto (await_then (atomic_calls atomic calls)
                      (\<lambda>_. rejected e :: ('a, 'c, 'w) async))) s =
             Some (Inl (if errs = [] then e
                        else AggregateError errs ''One or more rollbacks failed''),
                   popTransactionContext s'') \<and>
           transaction call (Explicit (\<lambda>ctx. await_then
               (atomic_calls (\<lambda>action compensation. atomicExplicit action compensation ctx) calls)
               (\<lambda>_. rejected e :: ('a, 'c, 'w) async))) s =
             Some (Inl (if errs = [] then e
                        else AggregateError errs ''One or more rollbacks failed''),
                   popTransactionContext s'') \<and>
           length (registered calls rs) = length calls"
proof -
  let ?ctx = "allocated s"
  let ?failed = "(enter s)\<lparr>world := w,
      compensations := (compensations s)(?ctx := registered calls rs)\<rparr>"
  note bodies = calls_then_throw [OF actions, of e]
  have list: "compensations ?failed ?ctx = registered calls rs"
    by simp
  have first: "reverse_in_place ?ctx ?failed = s'"
    by (simp add: start reverse_in_place_def)
  have quiet': "undisturbed call ?ctx (rev (compensations ?failed ?ctx)) (reverse_in_place ?ctx ?failed)"
    unfolding first list by (rule quiet)
  from transaction_fail [OF bodies(1) quiet']
  obtain errs s'' where
    all: "attempt_all call (rev (registered calls rs)) s' = Some (errs, s'')" and
    auto: "transaction call (Auto (await_then (atomic_calls atomic calls) (\<lambda>_. rejected e :: ('a, 'c, 'w) async))) s =
             Some (Inl (if errs = [] then e
                        else AggregateError errs ''One or more rollbacks failed''),
                   popTransactionContext s'')"
    unfolding first list by blast
  from transaction_fail [OF bodies(2) quiet'] all
  have expl: "transaction call (Explicit (\<lambda>ctx. await_then
               (atomic_calls (\<lambda>action compensation. atomicExplicit action compensation ctx) calls)
               (\<lambda>_. rejected e :: ('a, 'c, 'w) async))) s =
             Some (Inl (if errs = [] then e
                        else AggregateError errs ''One or more rollbacks failed''),
                   popTransactionContext s'')"
    unfolding first list by auto
  have "length (registered calls rs) = length calls"
    using run_actions_length [OF actions] by (simp add: registered_def)
  with all auto expl show ?thesis
    by blast
qed

text \<open>
  The second compensation awaits an explicit atomic call on another context, \<open>7\<close>: it
  reaches the context store and leaves the array of the transaction's context alone. Two
  compensations run, \<^verbatim>\<open>compensation2: 6, 2\<close> and then \<^verbatim>\<open>compensation1: 6, 5\<close>; the
  closure left on context \<open>7\<close> does not.
\<close>

theorem rollback_reverse_order_witness:
  "run_actions sideways_calls [] = Some ([6, 6], []) \<and>
   undisturbed call_closure 0 [Line_then_explicit 7 ''compensation2'' 6 2, Line ''compensation1'' 6 5]
     \<lparr>transactionContextStack = [0],
        compensations = (\<lambda>_. [])(0 := [Line_then_explicit 7 ''compensation2'' 6 2, Line ''compensation1'' 6 5]),
        allocated = 1, world = []\<rparr> \<and>
   transaction call_closure
     (Auto (await_then (atomic_calls atomic sideways_calls)
              (\<lambda>_. rejected (Error ''Transaction error'') :: (unit, closure, log) async)))
     (initial []) =
     Some (Inl (Error ''Transaction error''),
       \<lparr>transactionContextStack = [],
          compensations = (\<lambda>_. [])
            (0 := [Line_then_explicit 7 ''compensation2'' 6 2, Line ''compensation1'' 6 5],
             7 := [Line ''registered during rollback'' 0 0]),
          allocated = 1,
          world = [(''compensation2'', 6, 2), (''compensation1'', 6, 5)]\<rparr>)"
proof -
  let ?s = "initial [] :: (closure, log) state"
  let ?ks = "[Line_then_explicit 7 ''compensation2'' 6 2, Line ''compensation1'' 6 5]"
  let ?start = "\<lparr>transactionContextStack = [0], compensations = (\<lambda>_. [])(0 := ?ks),
        allocated = 1, world = ([] :: log)\<rparr>"
  have actions: "run_actions sideways_calls (world ?s) = Some ([6, 6], [])"
    by (simp add: fixtures)
  have regs: "rev (registered sideways_calls [6, 6]) = ?ks"
    by (simp add: fixtures registered_def)
  have start: "?start = (enter ?s)\<lparr>world := [],
      compensations := (compensations ?s)(allocated ?s := rev (registered sideways_calls [6, 6]))\<rparr>"
    unfolding regs by (simp add: run_defs)
  have quiet: "undisturbed call_closure 0 ?ks ?start"
    by (simp add: fixtures run_defs)
  have quiet': "undisturbed call_closure (allocated ?s) (rev (registered sideways_calls [6, 6])) ?start"
    unfolding regs using quiet by simp
  have all: "attempt_all call_closure ?ks ?start =
      Some ([], \<lparr>transactionContextStack = [0],
          compensations = (\<lambda>_. [])(0 := ?ks, 7 := [Line ''registered during rollback'' 0 0]),
          allocated = 1,
          world = [(''compensation2'', 6, 2), (''compensation1'', 6, 5)]\<rparr>)"
    by (simp add: fixtures run_defs)
  from rollback_reverse_order [OF actions start quiet', of "Error ''Transaction error''"]
  have "transaction call_closure
     (Auto (await_then (atomic_calls atomic sideways_calls)
              (\<lambda>_. rejected (Error ''Transaction error''))))
     ?s =
     Some (Inl (Error ''Transaction error''),
       \<lparr>transactionContextStack = [],
          compensations = (\<lambda>_. [])(0 := ?ks, 7 := [Line ''registered during rollback'' 0 0]),
          allocated = 1,
          world = [(''compensation2'', 6, 2), (''compensation1'', 6, 5)]\<rparr>)"
    unfolding regs all by (auto simp: popTransactionContext_def)
  with actions quiet show ?thesis
    by simp
qed

text \<open>
  C2. The compensations stay with the caller's state (\<open>plain\<close>). The body fails and at
  least one compensation fails in the rollback. The transaction
  then fails with one \<^verbatim>\<open>AggregateError\<close> whose \<^verbatim>\<open>errors\<close> are exactly the rejections
  of the compensations, in the order in which the rollback met them on its way from the
  last registered compensation to the first. The error \<open>e\<close> of the body is not put into
  the aggregate: it is dropped, and is found there only if a compensation itself rejected
  with an equal error.
\<close>

theorem aggregate_of_rollback_failures:
  assumes "call_body fn (allocated s) (enter s) = Some (Inl e, s')"
      and "failures_in_order (rev (compensations s' (allocated s))) (world s') \<noteq> []"
  shows "(\<exists>s''. transaction plain fn s =
            Some (Inl (AggregateError
                         (failures_in_order (rev (compensations s' (allocated s))) (world s'))
                         ''One or more rollbacks failed''), s'')) \<and>
         (e \<notin> set (failures_in_order (rev (compensations s' (allocated s))) (world s')) \<longrightarrow>
            (\<forall>errors message s''.
               transaction plain fn s = Some (Inl (AggregateError errors message), s'') \<longrightarrow>
               e \<notin> set errors))"
  using assms(2) by (simp add: transaction_fail_plain [OF assms(1)])

text \<open>
  The test's run: two compensations that throw, then \<^verbatim>\<open>Main error\<close>. The aggregate
  holds failure 2 and then failure 1, and not the main error.
\<close>

theorem aggregate_of_rollback_failures_witness:
  "call_body (Auto (await_then (atomic_calls atomic failing_calls)
                (\<lambda>_. rejected (Error ''Main error'') :: (unit, log rollback, log) async)))
     0 (enter (initial [])) =
     Some (Inl (Error ''Main error''),
       \<lparr>transactionContextStack = [0],
          compensations = (\<lambda>_. [])
            (0 := [failing ''Compensation failure 1'' 4 3, failing ''Compensation failure 2'' 10 5]),
          allocated = 1, world = []\<rparr>) \<and>
   failures_in_order
     [failing ''Compensation failure 2'' 10 5, failing ''Compensation failure 1'' 4 3] [] =
     [Error ''Compensation failure 2'', Error ''Compensation failure 1''] \<and>
   (\<exists>s''. transaction plain (Auto (await_then (atomic_calls atomic failing_calls)
                (\<lambda>_. rejected (Error ''Main error'') :: (unit, log rollback, log) async)))
            (initial []) =
     Some (Inl (AggregateError [Error ''Compensation failure 2'', Error ''Compensation failure 1'']
                  ''One or more rollbacks failed''), s'')) \<and>
   Error ''Main error'' \<notin> set [Error ''Compensation failure 2'', Error ''Compensation failure 1'']"
proof -
  let ?s = "initial [] :: (log rollback, log) state"
  let ?fn = "Auto (await_then (atomic_calls atomic failing_calls)
                (\<lambda>_. rejected (Error ''Main error'') :: (unit, log rollback, log) async))"
  let ?s' = "\<lparr>transactionContextStack = [0],
          compensations = (\<lambda>_. [])
            (0 := [failing ''Compensation failure 1'' 4 3, failing ''Compensation failure 2'' 10 5]),
          allocated = 1, world = ([] :: log)\<rparr>"
  have absent: "Error ''Main error'' \<notin> set [Error ''Compensation failure 2'', Error ''Compensation failure 1'']"
    by simp
  have body: "call_body ?fn (allocated ?s) (enter ?s) = Some (Inl (Error ''Main error''), ?s')"
    by (simp add: fixtures run_defs)
  have fails: "failures_in_order (rev (compensations ?s' (allocated ?s))) (world ?s') =
      [Error ''Compensation failure 2'', Error ''Compensation failure 1'']"
    by (simp add: fixtures)
  have some: "failures_in_order (rev (compensations ?s' (allocated ?s))) (world ?s') \<noteq> []"
    unfolding fails by simp
  have "\<exists>s''. transaction plain ?fn ?s =
      Some (Inl (AggregateError [Error ''Compensation failure 2'', Error ''Compensation failure 1'']
                   ''One or more rollbacks failed''), s'')"
    using aggregate_of_rollback_failures [OF body some] unfolding fails by blast
  then show ?thesis
    using body fails absent by simp
qed

text \<open>
  C3. The compensations stay with the caller's state (\<open>plain\<close>). The body of an outer
  transaction first runs \<open>pre\<close>, which succeeds, and then a nested
  transaction whose body fails with \<open>e\<close> in state \<open>s2\<close>. The inner transaction rolls back
  the compensations of its own context only, leaves the list of the outer context as it
  is, and raises; the outer transaction takes what the inner one raised as the failure of
  its body and rolls back its own compensations after that. The caller's state at the end
  is the state at the inner failure taken first through all inner compensations and then
  through all outer ones, each list last registered first.
\<close>

theorem nested_rollback_innermost_first:
  assumes outer: "call_body outer (allocated s) =
                    await_then pre (\<lambda>x. await_then (transaction plain inner) (post x))"
      and pre: "pre (enter s) = Some (Inr x, s1)"
      and grown: "allocated (enter s) \<le> allocated s1"
      and inner: "call_body inner (allocated s1) (enter s1) = Some (Inl e, s2)"
  shows "\<exists>e' s3 e'' s4.
           transaction plain inner s1 = Some (Inl e', s3) \<and>
           world s3 = run_in_order (rev (compensations s2 (allocated s1))) (world s2) \<and>
           compensations s3 (allocated s) = compensations s2 (allocated s) \<and>
           e' = (if failures_in_order (rev (compensations s2 (allocated s1))) (world s2) = [] then e
                 else AggregateError
                        (failures_in_order (rev (compensations s2 (allocated s1))) (world s2))
                        ''One or more rollbacks failed'') \<and>
           transaction plain outer s = Some (Inl e'', s4) \<and>
           world s4 =
             run_in_order (rev (compensations s2 (allocated s)))
               (run_in_order (rev (compensations s2 (allocated s1))) (world s2)) \<and>
           e'' = (if failures_in_order (rev (compensations s2 (allocated s))) (world s3) = [] then e'
                  else AggregateError
                         (failures_in_order (rev (compensations s2 (allocated s))) (world s3))
                         ''One or more rollbacks failed'')"
proof -
  let ?inner = "rev (compensations s2 (allocated s1))"
  let ?e' = "if failures_in_order ?inner (world s2) = [] then e
             else AggregateError (failures_in_order ?inner (world s2)) ''One or more rollbacks failed''"
  let ?s3 = "popTransactionContext
      (s2\<lparr>compensations := (compensations s2)(allocated s1 := ?inner),
          world := run_in_order ?inner (world s2)\<rparr>)"
  let ?outer = "rev (compensations ?s3 (allocated s))"
  let ?e'' = "if failures_in_order ?outer (world ?s3) = [] then ?e'
              else AggregateError (failures_in_order ?outer (world ?s3)) ''One or more rollbacks failed''"
  let ?s4 = "popTransactionContext
      (?s3\<lparr>compensations := (compensations ?s3)(allocated s := ?outer),
           world := run_in_order ?outer (world ?s3)\<rparr>)"
  have fresh: "allocated s1 \<noteq> allocated s"
    using grown by simp
  have inner_run: "transaction plain inner s1 = Some (Inl ?e', ?s3)"
    by (rule transaction_fail_plain [OF inner])
  have w3: "world ?s3 = run_in_order ?inner (world s2)"
    by simp
  have c3: "compensations ?s3 (allocated s) = compensations s2 (allocated s)"
    using fresh by simp
  have "call_body outer (allocated s) (enter s) = Some (Inl ?e', ?s3)"
    using pre inner_run by (simp add: outer await_then_def)
  from transaction_fail_plain [OF this]
  have outer_run: "transaction plain outer s = Some (Inl ?e'', ?s4)" .
  have w4: "world ?s4 =
      run_in_order (rev (compensations s2 (allocated s))) (run_in_order ?inner (world s2))"
    unfolding c3 by simp
  have e'': "?e'' = (if failures_in_order (rev (compensations s2 (allocated s))) (world ?s3) = [] then ?e'
       else AggregateError (failures_in_order (rev (compensations s2 (allocated s))) (world ?s3))
              ''One or more rollbacks failed'')"
    unfolding c3 ..
  show ?thesis
    using inner_run w3 c3 outer_run w4 e'' by blast
qed

text \<open>
  The test's run: the array reads \<^verbatim>\<open>inner compensation: 6\<close>, then
  \<^verbatim>\<open>outer compensation: 15\<close>, and the error is \<^verbatim>\<open>Inner failure\<close>.
\<close>

theorem nested_rollback_innermost_first_witness:
  "outer_first (enter (initial [])) =
     Some (Inr 15, \<lparr>transactionContextStack = [0],
             compensations = (\<lambda>_. [])(0 := [logging ''outer compensation'' 15 5]),
             allocated = 1, world = []\<rparr>) \<and>
   call_body inner_failing 1
     (enter \<lparr>transactionContextStack = [0],
             compensations = (\<lambda>_. [])(0 := [logging ''outer compensation'' 15 5]),
             allocated = 1, world = []\<rparr>) =
     Some (Inl (Error ''Inner failure''),
       \<lparr>transactionContextStack = [0, 1],
          compensations = (\<lambda>_. [])(0 := [logging ''outer compensation'' 15 5],
                                    1 := [logging ''inner compensation'' 6 3]),
          allocated = 2, world = []\<rparr>) \<and>
   (\<exists>s3 s4.
      transaction plain inner_failing
        \<lparr>transactionContextStack = [0],
           compensations = (\<lambda>_. [])(0 := [logging ''outer compensation'' 15 5]),
           allocated = 1, world = []\<rparr> = Some (Inl (Error ''Inner failure''), s3) \<and>
      world s3 = [(''inner compensation'', 6, 3)] \<and>
      compensations s3 0 = [logging ''outer compensation'' 15 5] \<and>
      transaction plain nesting (initial []) = Some (Inl (Error ''Inner failure''), s4) \<and>
      world s4 = [(''inner compensation'', 6, 3), (''outer compensation'', 15, 5)])"
proof -
  let ?s = "initial [] :: (log rollback, log) state"
  let ?mid = "\<lparr>transactionContextStack = [0],
             compensations = (\<lambda>_. [])(0 := [logging ''outer compensation'' 15 5]),
             allocated = 1, world = ([] :: log)\<rparr>"
  let ?fin = "\<lparr>transactionContextStack = [0, 1],
          compensations = (\<lambda>_. [])(0 := [logging ''outer compensation'' 15 5],
                                    1 := [logging ''inner compensation'' 6 3]),
          allocated = 2, world = ([] :: log)\<rparr>"
  have outer: "call_body nesting (allocated ?s) =
      await_then outer_first (\<lambda>x. await_then (transaction plain inner_failing) (\<lambda>_. resolved ()))"
    by (simp add: nesting_def)
  have pre: "outer_first (enter ?s) = Some (Inr 15, ?mid)"
    by (simp add: fixtures run_defs)
  have grown: "allocated (enter ?s) \<le> allocated ?mid"
    by simp
  have inner: "call_body inner_failing (allocated ?mid) (enter ?mid) =
      Some (Inl (Error ''Inner failure''), ?fin)"
    by (simp add: fixtures run_defs)
  have inner_comps: "compensations ?fin (allocated ?mid) = [logging ''inner compensation'' 6 3]"
    by simp
  have outer_comps: "compensations ?fin (allocated ?s) = [logging ''outer compensation'' 15 5]"
    by simp
  from nested_rollback_innermost_first [OF outer pre grown inner]
  obtain e' s3 e'' s4 where
    r1: "transaction plain inner_failing ?mid = Some (Inl e', s3)" and
    r2: "world s3 = run_in_order (rev (compensations ?fin (allocated ?mid))) (world ?fin)" and
    r3: "compensations s3 (allocated ?s) = compensations ?fin (allocated ?s)" and
    r4: "e' = (if failures_in_order (rev (compensations ?fin (allocated ?mid))) (world ?fin) = []
               then Error ''Inner failure''
               else AggregateError
                      (failures_in_order (rev (compensations ?fin (allocated ?mid))) (world ?fin))
                      ''One or more rollbacks failed'')" and
    r5: "transaction plain nesting ?s = Some (Inl e'', s4)" and
    r6: "world s4 =
           run_in_order (rev (compensations ?fin (allocated ?s)))
             (run_in_order (rev (compensations ?fin (allocated ?mid))) (world ?fin))" and
    r7: "e'' = (if failures_in_order (rev (compensations ?fin (allocated ?s))) (world s3) = [] then e'
                else AggregateError
                       (failures_in_order (rev (compensations ?fin (allocated ?s))) (world s3))
                       ''One or more rollbacks failed'')"
    by blast
  have w3: "world s3 = [(''inner compensation'', 6, 3)]"
    using r2 unfolding inner_comps by (simp add: logging_def)
  have c3: "compensations s3 0 = [logging ''outer compensation'' 15 5]"
    using r3 by simp
  have e': "e' = Error ''Inner failure''"
    using r4 unfolding inner_comps by (simp add: logging_def)
  have w4: "world s4 = [(''inner compensation'', 6, 3), (''outer compensation'', 15, 5)]"
    using r6 unfolding inner_comps outer_comps by (simp add: logging_def)
  have e'': "e'' = Error ''Inner failure''"
    using r7 unfolding outer_comps w3 e' by (simp add: logging_def)
  have "\<exists>s3 s4.
      transaction plain inner_failing ?mid = Some (Inl (Error ''Inner failure''), s3) \<and>
      world s3 = [(''inner compensation'', 6, 3)] \<and>
      compensations s3 0 = [logging ''outer compensation'' 15 5] \<and>
      transaction plain nesting ?s = Some (Inl (Error ''Inner failure''), s4) \<and>
      world s4 = [(''inner compensation'', 6, 3), (''outer compensation'', 15, 5)]"
    using r1 r5 w3 c3 w4 unfolding e' e'' by blast
  with pre inner show ?thesis
    by simp
qed

text \<open>
  C4. The compensations stay with the caller's state (\<open>plain\<close>). The body fails with
  \<open>e\<close>. If no compensation fails in the rollback, the transaction
  fails with \<open>e\<close> itself, not with an aggregate. If no compensation was registered at all,
  the rollback runs nothing: the error is \<open>e\<close> and the caller's state is the one the body
  left.
\<close>

theorem original_error_rethrown:
  assumes "call_body fn (allocated s) (enter s) = Some (Inl e, s')"
  shows "(failures_in_order (rev (compensations s' (allocated s))) (world s') = [] \<longrightarrow>
            (\<exists>s''. transaction plain fn s = Some (Inl e, s''))) \<and>
         (compensations s' (allocated s) = [] \<longrightarrow>
            (\<exists>s''. transaction plain fn s = Some (Inl e, s'') \<and> world s'' = world s'))"
  by (auto simp add: transaction_fail_plain [OF assms])

text \<open>
  Two compensations that succeed, and the body of the test \<^verbatim>\<open>should clean up the
  transaction context\<close>, which throws at once.
\<close>

theorem original_error_rethrown_witness:
  "call_body (Auto (await_then (atomic_calls atomic two_calls)
          (\<lambda>_. rejected (Error ''Transaction error'') :: (unit, log rollback, log) async)))
     0 (enter (initial [])) =
     Some (Inl (Error ''Transaction error''),
       \<lparr>transactionContextStack = [0],
          compensations = (\<lambda>_. [])
            (0 := [logging ''compensation1'' 6 5, logging ''compensation2'' 6 2]),
          allocated = 1, world = []\<rparr>) \<and>
   failures_in_order [logging ''compensation2'' 6 2, logging ''compensation1'' 6 5] [] = [] \<and>
   (\<exists>s''. transaction plain (Auto (await_then (atomic_calls atomic two_calls)
          (\<lambda>_. rejected (Error ''Transaction error'') :: (unit, log rollback, log) async)))
          (initial []) = Some (Inl (Error ''Transaction error''), s'')) \<and>
   call_body (Auto (rejected (Error ''Failure transaction'') :: (unit, log rollback, log) async))
     0 (enter (initial [])) =
     Some (Inl (Error ''Failure transaction''),
       \<lparr>transactionContextStack = [0], compensations = (\<lambda>_. [])(0 := []),
          allocated = 1, world = []\<rparr>) \<and>
   (\<exists>s''. transaction plain
            (Auto (rejected (Error ''Failure transaction'') :: (unit, log rollback, log) async))
            (initial []) = Some (Inl (Error ''Failure transaction''), s'') \<and> world s'' = [])"
proof -
  let ?s = "initial [] :: (log rollback, log) state"
  let ?fn = "Auto (await_then (atomic_calls atomic two_calls)
          (\<lambda>_. rejected (Error ''Transaction error'') :: (unit, log rollback, log) async))"
  let ?bare = "Auto (rejected (Error ''Failure transaction'') :: (unit, log rollback, log) async)"
  let ?s' = "\<lparr>transactionContextStack = [0],
          compensations = (\<lambda>_. [])
            (0 := [logging ''compensation1'' 6 5, logging ''compensation2'' 6 2]),
          allocated = 1, world = ([] :: log)\<rparr>"
  let ?t' = "\<lparr>transactionContextStack = [0], compensations = (\<lambda>_. [])(0 := ([] :: log rollback list)),
          allocated = 1, world = ([] :: log)\<rparr>"
  have body: "call_body ?fn (allocated ?s) (enter ?s) = Some (Inl (Error ''Transaction error''), ?s')"
    by (simp add: fixtures run_defs)
  have quiet: "failures_in_order (rev (compensations ?s' (allocated ?s))) (world ?s') = []"
    by (simp add: fixtures)
  have bare_body: "call_body ?bare (allocated ?s) (enter ?s) =
      Some (Inl (Error ''Failure transaction''), ?t')"
    by (simp add: run_defs)
  have none: "compensations ?t' (allocated ?s) = []"
    by simp
  have r: "\<exists>s''. transaction plain ?fn ?s = Some (Inl (Error ''Transaction error''), s'')"
    using original_error_rethrown [OF body] quiet by blast
  have r_bare: "\<exists>s''. transaction plain ?bare ?s = Some (Inl (Error ''Failure transaction''), s'') \<and>
      world s'' = []"
    using original_error_rethrown [OF bare_body] none by simp
  have quiet': "failures_in_order [logging ''compensation2'' 6 2, logging ''compensation1'' 6 5] [] = []"
    using quiet by simp
  show ?thesis
    using body quiet' r bare_body r_bare by simp
qed

text \<open>
  C5. The body completes with \<open>result\<close> in state \<open>s'\<close>. The transaction pops the context
  and returns \<open>result\<close>; the state it leaves is \<open>s'\<close> with the top of the stack removed, so
  the caller's state is the one the body left, whatever compensations were registered and
  whatever calling them would do: none of them has run.
\<close>

theorem commit_returns_result:
  assumes "call_body fn (allocated s) (enter s) = Some (Inr result, s')"
  shows "transaction call fn s = Some (Inr result, popTransactionContext s') \<and>
         world (popTransactionContext s') = world s' \<and>
         compensations (popTransactionContext s') = compensations s'"
  by (simp add: transaction_commit [OF assms])

text \<open>
  A body of two atomic calls that returns: two compensations are registered, and the
  array they would write to is empty at the end.
\<close>

theorem commit_returns_result_witness:
  "call_body (Auto (atomic_calls atomic two_calls)) 0 (enter (initial [])) =
     Some (Inr [6, 6],
       \<lparr>transactionContextStack = [0],
          compensations = (\<lambda>_. [])
            (0 := [logging ''compensation1'' 6 5, logging ''compensation2'' 6 2]),
          allocated = 1, world = []\<rparr>) \<and>
   transaction plain (Auto (atomic_calls atomic two_calls)) (initial []) =
     Some (Inr [6, 6],
       \<lparr>transactionContextStack = [],
          compensations = (\<lambda>_. [])
            (0 := [logging ''compensation1'' 6 5, logging ''compensation2'' 6 2]),
          allocated = 1, world = []\<rparr>)"
proof -
  let ?s = "initial [] :: (log rollback, log) state"
  let ?fn = "Auto (atomic_calls atomic two_calls)"
  let ?s' = "\<lparr>transactionContextStack = [0],
          compensations = (\<lambda>_. [])
            (0 := [logging ''compensation1'' 6 5, logging ''compensation2'' 6 2]),
          allocated = 1, world = ([] :: log)\<rparr>"
  have body: "call_body ?fn (allocated ?s) (enter ?s) = Some (Inr [6, 6], ?s')"
    by (simp add: fixtures run_defs)
  have "transaction plain ?fn ?s = Some (Inr [6, 6], popTransactionContext ?s')"
    using commit_returns_result [OF body] by blast
  then show ?thesis
    using body by (simp add: popTransactionContext_def)
qed

text \<open>
  C6. The wrapped action fails with \<open>e\<close>. The implicit form (called inside a transaction,
  as it must be for the action to run at all) and the explicit form both fail with \<open>e\<close>
  itself, and the compensation lists of all contexts are what they were before the call:
  nothing is registered.
\<close>

theorem failed_action_registers_nothing:
  assumes "action args (world s) = (Inl e, w)"
  shows "(getCurrentTransactionContext s \<noteq> None \<longrightarrow>
            (\<exists>s'. atomic action compensation args s = Some (Inl e, s') \<and>
                  s' = s\<lparr>world := w\<rparr> \<and> compensations s' = compensations s)) \<and>
         (\<exists>s'. atomicExplicit action compensation ctx args s = Some (Inl e, s') \<and>
               s' = s\<lparr>world := w\<rparr> \<and> compensations s' = compensations s)"
  using assms by (auto simp add: atomic_def atomicExplicit_def)

text \<open>The test \<^verbatim>\<open>should propagate error if atomic action fails and not register compensation\<close>.\<close>

theorem failed_action_registers_nothing_witness:
  "throwing ''Action error'' 4 (world (enter (initial [] :: (log rollback, log) state))) =
     (Inl (Error ''Action error''), []) \<and>
   getCurrentTransactionContext (enter (initial [] :: (log rollback, log) state)) = Some 0 \<and>
   atomic (throwing ''Action error'') (logging ''compensation'') 4 (enter (initial [])) =
     Some (Inl (Error ''Action error''), enter (initial [])) \<and>
   atomicExplicit (throwing ''Action error'') (logging ''compensation'') 0 4 (enter (initial [])) =
     Some (Inl (Error ''Action error''), enter (initial [])) \<and>
   compensations (enter (initial [] :: (log rollback, log) state)) 0 = []"
proof -
  let ?s = "enter (initial [] :: (log rollback, log) state)"
  have act: "throwing ''Action error'' 4 (world ?s) = (Inl (Error ''Action error''), [])"
    by (simp add: throwing_def)
  have cur: "getCurrentTransactionContext ?s = Some 0"
    by simp
  have same: "?s\<lparr>world := []\<rparr> = ?s"
    by (simp add: run_defs)
  show ?thesis
    using act cur
      failed_action_registers_nothing [where action = "throwing ''Action error''" and args = 4
        and s = ?s and e = "Error ''Action error''" and w = "[]"
        and compensation = "logging ''compensation''" and ctx = 0]
    unfolding same by simp
qed

text \<open>
  C7. An implicit atomic call made while the context stack is empty fails with the error
  \<^verbatim>\<open>Cannot find current transaction context\<close> and leaves the whole state, the caller's
  part included, as it was: whatever the action is, it has not run.
\<close>

theorem atomic_without_context:
  assumes "transactionContextStack s = []"
  shows "atomic action compensation args s =
           Some (Inl (Error ''Cannot find current transaction context''), s)"
  using assms by (simp add: atomic_def getCurrentTransactionContext_def)

text \<open>An action that would leave a line in the array: the array stays empty.\<close>

theorem atomic_without_context_witness:
  "transactionContextStack (initial [] :: (log rollback, log) state) = [] \<and>
   atomic (\<lambda>val w. (Inr (val * 2), w @ [(''action'', val * 2, val)]))
          (logging ''compensation'') 5 (initial []) =
     Some (Inl (Error ''Cannot find current transaction context''), initial [])"
proof -
  have h: "transactionContextStack (initial [] :: (log rollback, log) state) = []"
    by simp
  show ?thesis
    using h atomic_without_context [OF h,
        of "\<lambda>val w. (Inr (val * 2), w @ [(''action'', val * 2, val)])" "logging ''compensation''" 5]
    by simp
qed

text \<open>
  C8. As stated, for every call, the claim fails: a transaction called inside the body of
  another one returns with the outer context current. The body below awaits a nested
  transaction and then reads the current context; it reads context \<open>0\<close>, not
  \<^verbatim>\<open>undefined\<close>.
\<close>

theorem context_present_after_nested_call:
  "map_option fst
     (transaction plain
        (Auto (await_then (transaction plain (Auto (resolved ''success''))) (\<lambda>_. current)))
        (initial ())) = Some (Inr (Some 0))"
  by (simp add: run_defs current_def)

text \<open>
  C8, amended. After a call to \<open>transaction\<close> made while no transaction is active (the
  stack is empty), with a body that settles and is balanced and with compensations that
  stay with the caller's state, the call settles and no context is current, whichever way
  the call ends.
\<close>

theorem top_level_transaction_leaves_no_context:
  assumes "transactionContextStack s = []"
      and "call_body fn (allocated s) (enter s) = Some (v, s')"
      and "transactionContextStack s' = transactionContextStack (enter s)"
  shows "\<exists>r s''. transaction plain fn s = Some (r, s'') \<and>
           getCurrentTransactionContext s'' = None"
proof -
  from transaction_stack [OF assms(2) assms(3)] obtain r s'' where
    run: "transaction plain fn s = Some (r, s'')" and
    stack: "transactionContextStack s'' = transactionContextStack s"
    by blast
  from stack assms(1) have "getCurrentTransactionContext s'' = None"
    by (simp add: getCurrentTransactionContext_def)
  with run show ?thesis
    by blast
qed

text \<open>The three exits: a commit, the body's own error, an aggregate.\<close>

theorem top_level_transaction_leaves_no_context_witness:
  "transactionContextStack (initial [] :: (log rollback, log) state) = [] \<and>
   (\<exists>s''. transaction plain (Auto (resolved ''success'')) (initial ([] :: log)) =
            Some (Inr ''success'', s'') \<and>
          getCurrentTransactionContext s'' = None) \<and>
   (\<exists>s''. transaction plain
            (Auto (rejected (Error ''Failure transaction'') :: (unit, log rollback, log) async))
            (initial []) = Some (Inl (Error ''Failure transaction''), s'') \<and>
          getCurrentTransactionContext s'' = None) \<and>
   (\<exists>s''. transaction plain (Auto (await_then (atomic_calls atomic failing_calls)
              (\<lambda>_. rejected (Error ''Main error'') :: (unit, log rollback, log) async)))
            (initial []) =
            Some (Inl (AggregateError
                         [Error ''Compensation failure 2'', Error ''Compensation failure 1'']
                         ''One or more rollbacks failed''), s'') \<and>
          getCurrentTransactionContext s'' = None)"
proof -
  let ?s = "initial [] :: (log rollback, log) state"
  let ?ok = "Auto (resolved ''success'') :: (string, log rollback, log) body"
  let ?bad = "Auto (rejected (Error ''Failure transaction'') :: (unit, log rollback, log) async)"
  let ?agg = "Auto (await_then (atomic_calls atomic failing_calls)
          (\<lambda>_. rejected (Error ''Main error'') :: (unit, log rollback, log) async))"
  have empty: "transactionContextStack ?s = []"
    by simp
  have ok: "call_body ?ok (allocated ?s) (enter ?s) = Some (Inr ''success'', enter ?s)"
    by (simp add: resolved_def)
  have bad: "call_body ?bad (allocated ?s) (enter ?s) =
      Some (Inl (Error ''Failure transaction''), enter ?s)"
    by (simp add: rejected_def)
  have agg: "call_body ?agg (allocated ?s) (enter ?s) =
      Some (Inl (Error ''Main error''),
        \<lparr>transactionContextStack = [0],
           compensations = (\<lambda>_. [])
             (0 := [failing ''Compensation failure 1'' 4 3, failing ''Compensation failure 2'' 10 5]),
           allocated = 1, world = []\<rparr>)"
    by (simp add: fixtures run_defs)
  have r_ok: "map_option fst (transaction plain ?ok ?s) = Some (Inr ''success'')"
    by (simp add: run_defs)
  have r_bad: "map_option fst (transaction plain ?bad ?s) = Some (Inl (Error ''Failure transaction''))"
    by (simp add: run_defs rollback_loop.simps)
  have r_agg: "map_option fst (transaction plain ?agg ?s) =
      Some (Inl (AggregateError [Error ''Compensation failure 2'', Error ''Compensation failure 1'']
                   ''One or more rollbacks failed''))"
    by (simp add: fixtures run_defs rollback_loop.simps)
  have c_ok: "\<exists>s''. transaction plain ?ok ?s = Some (Inr ''success'', s'') \<and>
      getCurrentTransactionContext s'' = None"
    using top_level_transaction_leaves_no_context [OF empty ok] r_ok by auto
  have c_bad: "\<exists>s''. transaction plain ?bad ?s = Some (Inl (Error ''Failure transaction''), s'') \<and>
      getCurrentTransactionContext s'' = None"
    using top_level_transaction_leaves_no_context [OF empty bad] r_bad by auto
  have c_agg: "\<exists>s''. transaction plain ?agg ?s =
      Some (Inl (AggregateError [Error ''Compensation failure 2'', Error ''Compensation failure 1'']
                   ''One or more rollbacks failed''), s'') \<and>
      getCurrentTransactionContext s'' = None"
    using top_level_transaction_leaves_no_context [OF empty agg] r_agg by auto
  show ?thesis
    using empty c_ok c_bad c_agg by blast
qed

text \<open>
  C9. As stated the claim fails: \<^verbatim>\<open>popTransactionContext\<close> on the empty stack completes
  and changes nothing. In a process that has run no transaction, the state after the call
  is the state before it.
\<close>

theorem pop_on_empty_stack_completes:
  "popTransactionContext (initial () :: (unit rollback, unit) state) = initial ()"
  by (simp add: popTransactionContext_def)

text \<open>
  C9, amended. Calling \<^verbatim>\<open>popTransactionContext\<close> when the stack is empty is a silent
  no-op: it raises nothing and leaves the state, with its empty stack, as it was.
\<close>

theorem pop_empty_is_noop:
  assumes "transactionContextStack s = []"
  shows "popTransactionContext s = s"
  using assms by (simp add: popTransactionContext_def)

theorem pop_empty_is_noop_witness:
  "transactionContextStack (initial [(''line'', 1, 2)] :: (log rollback, log) state) = [] \<and>
   world (popTransactionContext (initial [(''line'', 1, 2)] :: (log rollback, log) state)) =
     [(''line'', 1, 2)] \<and>
   transactionContextStack
     (popTransactionContext (initial [(''line'', 1, 2)] :: (log rollback, log) state)) = []"
proof -
  have h: "transactionContextStack (initial [(''line'', 1, 2)] :: (log rollback, log) state) = []"
    by simp
  show ?thesis
    using pop_empty_is_noop [OF h] by simp
qed

text \<open>
  C10. A call to \<open>transaction\<close> with a body that settles and is balanced, and with
  compensations that stay with the caller's state, settles and leaves the context stack
  exactly as it found it, on every exit: the context that was current before the call, or
  none, is current after it.
\<close>

theorem transaction_restores_stack:
  assumes "call_body fn (allocated s) (enter s) = Some (v, s')"
      and "transactionContextStack s' = transactionContextStack (enter s)"
  shows "\<exists>r s''. transaction plain fn s = Some (r, s'') \<and>
           transactionContextStack s'' = transactionContextStack s \<and>
           getCurrentTransactionContext s'' = getCurrentTransactionContext s"
proof -
  from transaction_stack [OF assms] obtain r s'' where
    run: "transaction plain fn s = Some (r, s'')" and
    stack: "transactionContextStack s'' = transactionContextStack s"
    by blast
  from stack have "getCurrentTransactionContext s'' = getCurrentTransactionContext s"
    by (simp add: getCurrentTransactionContext_def)
  with run stack show ?thesis
    by blast
qed

text \<open>
  The nested transaction of the test, which fails: it is called with the outer context
  \<open>0\<close> on the stack and leaves it there.
\<close>

theorem transaction_restores_stack_witness:
  "call_body inner_failing 1
     (enter \<lparr>transactionContextStack = [0],
             compensations = (\<lambda>_. [])(0 := [logging ''outer compensation'' 15 5]),
             allocated = 1, world = []\<rparr>) =
     Some (Inl (Error ''Inner failure''),
       \<lparr>transactionContextStack = [0, 1],
          compensations = (\<lambda>_. [])(0 := [logging ''outer compensation'' 15 5],
                                    1 := [logging ''inner compensation'' 6 3]),
          allocated = 2, world = []\<rparr>) \<and>
   (\<exists>r s''. transaction plain inner_failing
        \<lparr>transactionContextStack = [0],
           compensations = (\<lambda>_. [])(0 := [logging ''outer compensation'' 15 5]),
           allocated = 1, world = []\<rparr> = Some (r, s'') \<and>
      transactionContextStack s'' = [0] \<and>
      getCurrentTransactionContext s'' = Some 0)"
proof -
  let ?mid = "\<lparr>transactionContextStack = [0],
             compensations = (\<lambda>_. [])(0 := [logging ''outer compensation'' 15 5]),
             allocated = 1, world = ([] :: log)\<rparr>"
  let ?fin = "\<lparr>transactionContextStack = [0, 1],
          compensations = (\<lambda>_. [])(0 := [logging ''outer compensation'' 15 5],
                                    1 := [logging ''inner compensation'' 6 3]),
          allocated = 2, world = ([] :: log)\<rparr>"
  have inner: "call_body inner_failing (allocated ?mid) (enter ?mid) =
      Some (Inl (Error ''Inner failure''), ?fin)"
    by (simp add: fixtures run_defs)
  have balanced: "transactionContextStack ?fin = transactionContextStack (enter ?mid)"
    by simp
  have cur: "getCurrentTransactionContext ?mid = Some 0"
    by (simp add: getCurrentTransactionContext_def)
  show ?thesis
    using transaction_restores_stack [OF inner balanced] inner cur by simp
qed

end
